theory Spec2Isabelle
  imports Complex_Main "HOL-Library.Sublist" "HOL-Library.AList"
begin

section \<open>Data model\<close>

text \<open>
  The allocator of \<^verbatim>\<open>first_study_plan.py\<close> works on task dictionaries with the keys
  \<^verbatim>\<open>name\<close>, \<^verbatim>\<open>remaining\<close>, \<^verbatim>\<open>time_per_item\<close>, \<^verbatim>\<open>difficulty\<close> and \<^verbatim>\<open>priority\<close>,
  and appends assignment dictionaries with the keys \<^verbatim>\<open>name\<close>, \<^verbatim>\<open>assigned\<close> and
  \<^verbatim>\<open>time\<close>. Python integers are unbounded and become \<open>int\<close>. Python floats are
  modelled as exact reals here and in the replanner; the rounding of the allocator's
  arithmetic is modelled in the section on floating point. The non-finite values are
  outside the model.
\<close>

record task =
  name :: string
  remaining :: int
  time_per_item :: real
  difficulty :: real
  priority :: int

record assignment =
  asg_name :: string
  asg_assigned :: int
  asg_time :: real

text \<open>
  The task dictionaries are shared objects: \<^verbatim>\<open>sorted(tasks, ...)\<close> builds a new list
  holding the same dictionaries, and the loop mutates them through that list. The store
  is the caller's list; a task object is addressed by its position in it, and the sorted
  list is a list of such positions.
\<close>

record day_state =
  store :: "task list"
  remaining_time :: real
  any_assigned :: bool
  day_plan :: "assignment list"

section \<open>The allocator\<close>

text \<open>
  Line 97: \<^verbatim>\<open>sorted\<close> with a key is a stable sort, as is \<open>sort_key\<close>. The caller's
  list is taken to hold each task object once, as every caller of the repository
  builds it.
\<close>

definition tasks_sorted :: "task list \<Rightarrow> nat list" where
  "tasks_sorted tasks = sort_key (\<lambda>i. priority (tasks ! i)) [0..<length tasks]"

text \<open>Line 108: the effective cost of one item of a task.\<close>

definition time_per :: "task \<Rightarrow> real" where
  "time_per t = time_per_item t * difficulty t"

text \<open>Lines 121 to 129: the bookkeeping once \<^verbatim>\<open>assign\<close> is known.\<close>

definition assign_items :: "nat \<Rightarrow> int \<Rightarrow> real \<Rightarrow> day_state \<Rightarrow> day_state" where
  "assign_items i assign tp s =
     (let t = store s ! i;
          s1 = s\<lparr>store := (store s)[i := t\<lparr>remaining := remaining t - assign\<rparr>],
                 remaining_time := remaining_time s - of_int assign * tp\<rparr>
      in if assign > 0
         then s1\<lparr>any_assigned := True,
                 day_plan := day_plan s1 @
                   [\<lparr>asg_name = name t, asg_assigned = assign,
                     asg_time = of_int assign * tp\<rparr>]\<rparr>
         else s1)"

text \<open>Lines 106 to 129: the body of the loop over \<^verbatim>\<open>tasks_sorted\<close>.\<close>

definition step_task :: "day_state \<Rightarrow> nat \<Rightarrow> day_state" where
  "step_task s i =
     (let t = store s ! i in
      if remaining t \<le> 0 then s
      else if time_per t \<le> 0 then s
      else
        let max_items = (if remaining_time s > 0
                         then \<lfloor>remaining_time s / time_per t\<rfloor> else 0) in
        if max_items > 0 then assign_items i (min max_items (remaining t)) (time_per t) s
        else if remaining_time s > 0 \<and> remaining t > 0 \<and> \<not> any_assigned s
             then assign_items i 1 (time_per t) s
             else s)"

text \<open>Lines 102 to 129: one day's pass over the tasks in priority order.\<close>

definition day_pass :: "real \<Rightarrow> nat list \<Rightarrow> task list \<Rightarrow> day_state" where
  "day_pass capacity order ts =
     foldl step_task
       \<lparr>store = ts, remaining_time = capacity, any_assigned = False, day_plan = []\<rparr> order"

text \<open>Lines 101 to 131: the loop over the days; the store is threaded through.\<close>

fun alloc_days :: "real list \<Rightarrow> nat list \<Rightarrow> task list \<Rightarrow> assignment list list \<times> task list" where
  "alloc_days [] order ts = ([], ts)"
| "alloc_days (c # cs) order ts =
     (let s = day_pass c order ts;
          r = alloc_days cs order (store s)
      in (day_plan s # fst r, snd r))"

text \<open>
  The result pairs the returned plan with the caller's task list after the call, since
  the mutation of \<^verbatim>\<open>remaining\<close> is visible to the caller.
\<close>

definition allocate_by_priority :: "real list \<Rightarrow> task list \<Rightarrow> assignment list list \<times> task list" where
  "allocate_by_priority day_capacities tasks =
     alloc_days day_capacities (tasks_sorted tasks) tasks"

text \<open>
  A task the loop body does not skip at lines 106 to 110: work remains and one item has
  a positive cost.
\<close>

definition eligible :: "task \<Rightarrow> bool" where
  "eligible t \<longleftrightarrow> remaining t > 0 \<and> time_per t > 0"

text \<open>
  What a run of the loops may do to the caller's task list: every field but
  \<^verbatim>\<open>remaining\<close> keeps its value, \<^verbatim>\<open>remaining\<close> only goes down, never below zero
  from a non-negative start, and not at all for a task whose item cost is not positive.
\<close>

definition task_frame :: "task list \<Rightarrow> task list \<Rightarrow> bool" where
  "task_frame ts ts' \<longleftrightarrow>
     length ts' = length ts \<and>
     (\<forall>j<length ts.
        name (ts' ! j) = name (ts ! j) \<and>
        time_per_item (ts' ! j) = time_per_item (ts ! j) \<and>
        difficulty (ts' ! j) = difficulty (ts ! j) \<and>
        priority (ts' ! j) = priority (ts ! j) \<and>
        remaining (ts' ! j) \<le> remaining (ts ! j) \<and>
        (0 \<le> remaining (ts ! j) \<longrightarrow> 0 \<le> remaining (ts' ! j)) \<and>
        (time_per (ts ! j) \<le> 0 \<longrightarrow> remaining (ts' ! j) = remaining (ts ! j)))"

text \<open>
  The number of items that the assignment records of a list give to the task name \<open>n\<close>.
\<close>

definition assigned_of :: "string \<Rightarrow> assignment list \<Rightarrow> int" where
  "assigned_of n as = sum_list (map asg_assigned (filter (\<lambda>a. asg_name a = n) as))"

text \<open>
  What every assignment record written by the loops looks like: it bears the name of a
  task of the list whose item cost is positive, its count is positive, and its time is
  the count times that cost.
\<close>

definition record_of :: "task list \<Rightarrow> assignment \<Rightarrow> bool" where
  "record_of ts a \<longleftrightarrow>
     (\<exists>i<length ts. asg_name a = name (ts ! i) \<and> 0 < time_per (ts ! i) \<and>
        0 < asg_assigned a \<and> asg_time a = of_int (asg_assigned a) * time_per (ts ! i))"


section \<open>The allocator in floating point\<close>






text \<open>
  The rounding of a Python float, IEEE 754 binary64 to nearest with ties to even, on
  the finite range. \<open>binade\<close> finds the power of two at or below a positive number by
  halving or doubling, with more steps allowed than the exponent range of the format
  needs; below \<open>2\<^sup>-\<^sup>1\<^sup>0\<^sup>2\<^sup>2\<close> the spacing of the floats stays that of the subnormal
  numbers. Results beyond the largest float (infinities) are outside the model.
\<close>

fun binade :: "nat \<Rightarrow> real \<Rightarrow> int" where
  "binade 0 x = 0"
| "binade (Suc n) x =
     (if 2 \<le> x then binade n (x / 2) + 1
      else if x < 1 then binade n (x * 2) - 1
      else 0)"

definition round_half_even :: "real \<Rightarrow> int" where
  "round_half_even x =
     (let f = \<lfloor>x\<rfloor>; r = x - of_int f
      in if r < 1 / 2 then f
         else if 1 / 2 < r then f + 1
         else if even f then f else f + 1)"

definition binary64 :: "real \<Rightarrow> real" where
  "binary64 x =
     (if x = 0 then 0
      else
        let e = max (binade 2200 \<bar>x\<bar>) (- 1022);
            ulp = (if 52 \<le> e then 2 ^ nat (e - 52) else 1 / 2 ^ nat (52 - e))
        in of_int (round_half_even (x / ulp)) * ulp)"

section \<open>The replanner\<close>

text \<open>
  \<^verbatim>\<open>done_task.py\<close> reads a stored plan back as rows with the keys \<^verbatim>\<open>day\<close>,
  \<^verbatim>\<open>name\<close>, \<^verbatim>\<open>assigned\<close> and \<^verbatim>\<open>time\<close>. A day without work is stored as one row
  whose name is the idle label, given here by its UTF-8 bytes.
\<close>

record row =
  row_day :: int
  row_name :: string
  row_assigned :: int
  row_time :: real

definition idle_sentinel :: string where
  "idle_sentinel =
     [CHR ''('', CHR 0xE4, CHR 0xBC, CHR 0x91, CHR 0xE6, CHR 0x86, CHR 0xA9, CHR ''/'',
      CHR 0xE5, CHR 0xAD, CHR 0xA6, CHR 0xE7, CHR 0xBF, CHR 0x92, CHR 0xE7, CHR 0x84,
      CHR 0xA1, CHR 0xE3, CHR 0x81, CHR 0x97, CHR '')'']"

text \<open>
  The value that \<^verbatim>\<open>aggregate_tasks_from_plan\<close> keeps for a task name. The key
  \<^verbatim>\<open>time_per_item\<close> is absent until the second loop of the function sets it.
\<close>

record info =
  total_assigned :: int
  time_per_item_samples :: "real list"
  first_day :: int
  info_time_per_item :: "real option"

text \<open>Line 120: the entry made for a name that is not yet a key.\<close>

definition new_info :: "row \<Rightarrow> info" where
  "new_info r =
     \<lparr>total_assigned = 0, time_per_item_samples = [], first_day = row_day r,
      info_time_per_item = None\<rparr>"

text \<open>Lines 121 to 125: what a row adds to the entry of its name.\<close>

definition add_row :: "row \<Rightarrow> info \<Rightarrow> info" where
  "add_row r i =
     (let assigned = row_assigned r; time_h = row_time r;
          i1 = i\<lparr>total_assigned := total_assigned i + assigned\<rparr>;
          i2 = (if assigned > 0
                then i1\<lparr>time_per_item_samples :=
                          time_per_item_samples i1 @ [time_h / of_int assigned]\<rparr>
                else i1)
      in i2\<lparr>first_day := min (first_day i2) (row_day r)\<rparr>)"

text \<open>
  Lines 113 to 125: the body of the loop over the rows. The dictionary is a list of
  key and value pairs in insertion order, as a Python dictionary iterates.
\<close>

definition aggregate_row :: "(string \<times> info) list \<Rightarrow> row \<Rightarrow> (string \<times> info) list" where
  "aggregate_row tasks r =
     (let n = row_name r in
      if n = idle_sentinel then tasks
      else
        let tasks1 = (if map_of tasks n = None then AList.update n (new_info r) tasks
                      else tasks)
        in AList.map_entry n (add_row r) tasks1)"

text \<open>Lines 129 to 131: the mean of the samples, or 1.0 without samples.\<close>

definition set_time_per_item :: "info \<Rightarrow> info" where
  "set_time_per_item i =
     (let samples = time_per_item_samples i;
          tpi = (if samples \<noteq> [] then sum_list samples / of_nat (length samples) else 1)
      in i\<lparr>info_time_per_item := Some tpi\<rparr>)"

definition aggregate_tasks_from_plan :: "row list \<Rightarrow> (string \<times> info) list" where
  "aggregate_tasks_from_plan plan_rows =
     map (\<lambda>(n, i). (n, set_time_per_item i)) (foldl aggregate_row [] plan_rows)"

text \<open>
  The function \<^verbatim>\<open>run\<close> of \<^verbatim>\<open>done_task.py\<close>. What the user types at the prompt of a
  task is an empty line, a line that \<^verbatim>\<open>int\<close> rejects, or a number.
\<close>

datatype done_input = Blank | Garbled | Number int

text \<open>Lines 196 and 197: a day number below 1 counts as day 1.\<close>

definition clamp_today :: "int \<Rightarrow> int" where
  "clamp_today today = (if today < 1 then 1 else today)"

text \<open>Lines 204, 205 and 232: the sums over the rows of a task before and on \<^verbatim>\<open>today\<close>.\<close>

definition prev_assigned :: "row list \<Rightarrow> string \<Rightarrow> int \<Rightarrow> int" where
  "prev_assigned plan_rows n today =
     sum_list (map row_assigned (filter (\<lambda>r. row_name r = n \<and> row_day r < today) plan_rows))"

definition today_assigned :: "row list \<Rightarrow> string \<Rightarrow> int \<Rightarrow> int" where
  "today_assigned plan_rows n today =
     sum_list (map row_assigned (filter (\<lambda>r. row_name r = n \<and> row_day r = today) plan_rows))"

text \<open>Lines 207 to 209: the default offered at the prompt.\<close>

definition suggested :: "int \<Rightarrow> int \<Rightarrow> int \<Rightarrow> int" where
  "suggested total_n prev today_n =
     (let s = min (total_n - prev) today_n in if s < 0 then 0 else s)"

text \<open>Lines 211 to 218: reading the answer.\<close>

definition read_done :: "done_input \<Rightarrow> int \<Rightarrow> int" where
  "read_done s sugg = (case s of Blank \<Rightarrow> sugg | Garbled \<Rightarrow> 0 | Number n \<Rightarrow> n)"

text \<open>
  Lines 220 to 225: the clamp. The second component says whether the warning of line
  224 is printed.
\<close>

definition clamp_done :: "int \<Rightarrow> int \<Rightarrow> int \<Rightarrow> int \<times> bool" where
  "clamp_done total_n prev dn =
     (let max_possible = max 0 (total_n - prev);
          dn1 = (if dn < 0 then 0 else dn)
      in if dn1 > max_possible then (max_possible, True) else (dn1, False))"

record completion =
  done_today :: int
  prev_done :: int

text \<open>Lines 201 to 226: one entry of \<^verbatim>\<open>completed_by_task\<close> per key of \<^verbatim>\<open>tasks_info\<close>.\<close>

definition completed_by_task ::
  "row list \<Rightarrow> int \<Rightarrow> (string \<Rightarrow> done_input) \<Rightarrow> (string \<times> info) list \<Rightarrow>
   (string \<times> completion) list" where
  "completed_by_task plan_rows today answers tasks_info =
     map (\<lambda>(n, i).
        let total_n = total_assigned i;
            prev = prev_assigned plan_rows n today;
            sugg = suggested total_n prev (today_assigned plan_rows n today);
            dn = fst (clamp_done total_n prev (read_done (answers n) sugg))
        in (n, \<lparr>done_today = dn, prev_done = prev\<rparr>)) tasks_info"

text \<open>
  Lines 204 to 218 for one task: the number that reaches the clamp, which is the answer
  typed at the task's prompt, the offered default for an empty line, or 0 for a line
  that is not a number.
\<close>

definition typed_count ::
  "row list \<Rightarrow> int \<Rightarrow> (string \<Rightarrow> done_input) \<Rightarrow> string \<Rightarrow> int \<Rightarrow> int" where
  "typed_count plan_rows today answers n total_n =
     read_done (answers n)
       (suggested total_n (prev_assigned plan_rows n today) (today_assigned plan_rows n today))"

text \<open>
  Lines 223 and 224 over the same loop: the names of the tasks for which the warning is
  printed, in the order of the prompts.
\<close>

definition printed_warnings ::
  "row list \<Rightarrow> int \<Rightarrow> (string \<Rightarrow> done_input) \<Rightarrow> (string \<times> info) list \<Rightarrow> string list" where
  "printed_warnings plan_rows today answers tasks_info =
     map fst (filter (\<lambda>(n, i).
        let total_n = total_assigned i;
            prev = prev_assigned plan_rows n today;
            sugg = suggested total_n prev (today_assigned plan_rows n today)
        in snd (clamp_done total_n prev (read_done (answers n) sugg))) tasks_info)"

text \<open>Lines 234 to 236: the remaining count of a task.\<close>

definition derive_remaining :: "int \<Rightarrow> int \<Rightarrow> int \<Rightarrow> int" where
  "derive_remaining total_n prev dn =
     (let rem = total_n - prev - dn in if rem < 0 then 0 else rem)"

text \<open>Lines 229 to 247: the derived task set, one task per key of \<^verbatim>\<open>tasks_info\<close>.\<close>

definition remaining_tasks ::
  "row list \<Rightarrow> int \<Rightarrow> (string \<times> completion) list \<Rightarrow> (string \<times> info) list \<Rightarrow> task list" where
  "remaining_tasks plan_rows today completed tasks_info =
     map (\<lambda>(n, i).
        let total_n = total_assigned i;
            prev = prev_assigned plan_rows n today;
            dn = (case map_of completed n of None \<Rightarrow> 0 | Some c \<Rightarrow> done_today c)
        in \<lparr>name = n,
            remaining = derive_remaining total_n prev dn,
            time_per_item = (case info_time_per_item i of None \<Rightarrow> 1 | Some v \<Rightarrow> v),
            difficulty = 1,
            priority = first_day i\<rparr>) tasks_info"

text \<open>
  Lines 250 to 259: the capacities of the days after \<^verbatim>\<open>today\<close>, or the ones the user
  enters when the stored plan has none left.
\<close>

definition next_day_caps :: "real list \<Rightarrow> int \<Rightarrow> real list \<Rightarrow> real list" where
  "next_day_caps day_capacities today entered =
     (if today < int (length day_capacities) then drop (nat today) day_capacities
      else entered)"

text \<open>
  Lines 263 to 272: the copy handed to the allocator. Its extra key \<^verbatim>\<open>total\<close> is not
  read by the allocator and is left out.
\<close>

definition tasks_for_alloc :: "task list \<Rightarrow> task list" where
  "tasks_for_alloc ts =
     map (\<lambda>t. \<lparr>name = name t, remaining = remaining t, time_per_item = time_per_item t,
               difficulty = difficulty t, priority = priority t\<rparr>) ts"

text \<open>
  Lines 187 to 275 of \<^verbatim>\<open>run\<close>, with the file already parsed and the answers of the
  user as arguments: the derived task set, the result of the allocator on it, and the
  warnings printed on the way.
\<close>

definition run ::
  "row list \<Rightarrow> real list \<Rightarrow> int \<Rightarrow> (string \<Rightarrow> done_input) \<Rightarrow> real list \<Rightarrow>
   task list \<times> assignment list list \<times> task list \<times> string list" where
  "run plan_rows day_capacities today_in answers entered =
     (let tasks_info = aggregate_tasks_from_plan plan_rows;
          today = clamp_today today_in;
          completed = completed_by_task plan_rows today answers tasks_info;
          rts = remaining_tasks plan_rows today completed tasks_info;
          caps = next_day_caps day_capacities today entered;
          r = allocate_by_priority caps (tasks_for_alloc rts)
      in (rts, fst r, snd r, printed_warnings plan_rows today answers tasks_info))"

text \<open>
  The aggregates in the words of the specification: the rows of a task name, the sum of
  their assigned counts, the least of their days, and the mean of \<open>time / assigned\<close>
  over those with a positive count, 1 when there is none.
\<close>

definition history_rows :: "string \<Rightarrow> row list \<Rightarrow> row list" where
  "history_rows n rows = filter (\<lambda>r. row_name r = n) rows"

definition spec_total_assigned :: "string \<Rightarrow> row list \<Rightarrow> int" where
  "spec_total_assigned n rows = sum_list (map row_assigned (history_rows n rows))"

definition spec_first_day :: "string \<Rightarrow> row list \<Rightarrow> int" where
  "spec_first_day n rows = Min (row_day ` set (history_rows n rows))"

definition spec_samples :: "string \<Rightarrow> row list \<Rightarrow> real list" where
  "spec_samples n rows =
     map (\<lambda>r. row_time r / of_int (row_assigned r))
       (filter (\<lambda>r. 0 < row_assigned r) (history_rows n rows))"

definition spec_time_per_item :: "string \<Rightarrow> row list \<Rightarrow> real" where
  "spec_time_per_item n rows =
     (if spec_samples n rows = [] then 1
      else sum_list (spec_samples n rows) / of_nat (length (spec_samples n rows)))"

text \<open>The entry that the first loop of the aggregation holds for a name, in those words.\<close>

definition spec_info :: "string \<Rightarrow> row list \<Rightarrow> info" where
  "spec_info n rows =
     \<lparr>total_assigned = spec_total_assigned n rows,
      time_per_item_samples = spec_samples n rows,
      first_day = spec_first_day n rows,
      info_time_per_item = None\<rparr>"



section \<open>The loop body\<close>

lemma step_task_skip: "\<not> eligible (store s ! i) \<Longrightarrow> step_task s i = s"
  by (auto simp: step_task_def eligible_def Let_def)

lemma step_task_unfold:
  "step_task s i =
     (let t = store s ! i in
      if \<not> eligible t then s
      else if 0 < remaining_time s \<and> 0 < \<lfloor>remaining_time s / time_per t\<rfloor>
        then assign_items i (min \<lfloor>remaining_time s / time_per t\<rfloor> (remaining t)) (time_per t) s
      else if 0 < remaining_time s \<and> \<not> any_assigned s
        then assign_items i 1 (time_per t) s
      else s)"
  by (simp add: step_task_def eligible_def Let_def)

lemma step_task_cases:
  "step_task s i = s \<or>
   (\<exists>a. 0 < a \<and> a \<le> remaining (store s ! i) \<and> eligible (store s ! i) \<and>
        step_task s i = assign_items i a (time_per (store s ! i)) s)"
proof (cases "eligible (store s ! i)")
  case False
  then show ?thesis by (simp add: step_task_skip)
next
  case True
  then have r: "0 < remaining (store s ! i)" by (simp add: eligible_def)
  show ?thesis
  proof (cases "0 < remaining_time s \<and> 0 < \<lfloor>remaining_time s / time_per (store s ! i)\<rfloor>")
    case A: True
    let ?a = "min \<lfloor>remaining_time s / time_per (store s ! i)\<rfloor> (remaining (store s ! i))"
    have "0 < ?a" "?a \<le> remaining (store s ! i)" using A r by simp_all
    moreover have "step_task s i = assign_items i ?a (time_per (store s ! i)) s"
      using True A by (simp add: step_task_unfold Let_def)
    ultimately show ?thesis using True by blast
  next
    case B: False
    show ?thesis
    proof (cases "0 < remaining_time s \<and> \<not> any_assigned s")
      case C: True
      have "step_task s i = assign_items i 1 (time_per (store s ! i)) s"
        using True B C by (simp add: step_task_unfold Let_def)
      moreover have "(0::int) < 1" "1 \<le> remaining (store s ! i)" using r by simp_all
      ultimately show ?thesis using True by blast
    next
      case False
      then have "step_task s i = s" using True B by (auto simp add: step_task_unfold Let_def)
      then show ?thesis by simp
    qed
  qed
qed

lemma assign_items_store:
  "store (assign_items i a tp s) = (store s)[i := (store s ! i)\<lparr>remaining := remaining (store s ! i) - a\<rparr>]"
  by (simp add: assign_items_def Let_def)

lemma assign_items_plan:
  "0 < a \<Longrightarrow> day_plan (assign_items i a tp s) =
     day_plan s @ [\<lparr>asg_name = name (store s ! i), asg_assigned = a, asg_time = of_int a * tp\<rparr>]"
  by (simp add: assign_items_def Let_def)



lemma step_task_fit:
  assumes "eligible (store s ! i)" and "0 < remaining_time s"
    and "0 < \<lfloor>remaining_time s / time_per (store s ! i)\<rfloor>"
  shows "step_task s i =
    assign_items i (min \<lfloor>remaining_time s / time_per (store s ! i)\<rfloor> (remaining (store s ! i)))
      (time_per (store s ! i)) s"
  using assms by (simp add: step_task_unfold Let_def)

lemma step_task_force:
  assumes "eligible (store s ! i)" and "0 < remaining_time s"
    and "\<not> 0 < \<lfloor>remaining_time s / time_per (store s ! i)\<rfloor>" and "\<not> any_assigned s"
  shows "step_task s i = assign_items i 1 (time_per (store s ! i)) s"
  using assms by (auto simp add: step_task_unfold Let_def)


lemma foldl_step_task_invariant:
  assumes "P s" and "\<And>s i. i \<in> set order \<Longrightarrow> P s \<Longrightarrow> P (step_task s i)"
  shows "P (foldl step_task s order)"
  using assms by (induction order arbitrary: s) simp_all

section \<open>The frame of the loops\<close>

lemma task_frame_refl: "task_frame ts ts"
  by (simp add: task_frame_def)

lemma task_frame_trans:
  assumes a: "task_frame ts ts'" and b: "task_frame ts' ts''"
  shows "task_frame ts ts''"
proof -
  have len: "length ts' = length ts" "length ts'' = length ts"
    using a b by (simp_all add: task_frame_def)
  have "name (ts'' ! j) = name (ts ! j) \<and>
        time_per_item (ts'' ! j) = time_per_item (ts ! j) \<and>
        difficulty (ts'' ! j) = difficulty (ts ! j) \<and>
        priority (ts'' ! j) = priority (ts ! j) \<and>
        remaining (ts'' ! j) \<le> remaining (ts ! j) \<and>
        (0 \<le> remaining (ts ! j) \<longrightarrow> 0 \<le> remaining (ts'' ! j)) \<and>
        (time_per (ts ! j) \<le> 0 \<longrightarrow> remaining (ts'' ! j) = remaining (ts ! j))"
    if j: "j < length ts" for j
  proof -
    have 1: "name (ts' ! j) = name (ts ! j)" "time_per_item (ts' ! j) = time_per_item (ts ! j)"
      "difficulty (ts' ! j) = difficulty (ts ! j)" "priority (ts' ! j) = priority (ts ! j)"
      "remaining (ts' ! j) \<le> remaining (ts ! j)"
      "0 \<le> remaining (ts ! j) \<longrightarrow> 0 \<le> remaining (ts' ! j)"
      "time_per (ts ! j) \<le> 0 \<longrightarrow> remaining (ts' ! j) = remaining (ts ! j)"
      using a j by (simp_all add: task_frame_def)
    have 2: "name (ts'' ! j) = name (ts' ! j)" "time_per_item (ts'' ! j) = time_per_item (ts' ! j)"
      "difficulty (ts'' ! j) = difficulty (ts' ! j)" "priority (ts'' ! j) = priority (ts' ! j)"
      "remaining (ts'' ! j) \<le> remaining (ts' ! j)"
      "0 \<le> remaining (ts' ! j) \<longrightarrow> 0 \<le> remaining (ts'' ! j)"
      "time_per (ts' ! j) \<le> 0 \<longrightarrow> remaining (ts'' ! j) = remaining (ts' ! j)"
      using b j len by (simp_all add: task_frame_def)
    have tp: "time_per (ts' ! j) = time_per (ts ! j)"
      using 1 by (simp add: time_per_def)
    show ?thesis using 1 2 tp by auto
  qed
  then show ?thesis using len by (simp add: task_frame_def)
qed

lemma time_per_remaining_update [simp]: "time_per (t\<lparr>remaining := r\<rparr>) = time_per t"
  by (simp add: time_per_def)

lemma task_frame_update:
  assumes "0 < a" and "a \<le> remaining (ts ! i)" and "0 < time_per (ts ! i)"
  shows "task_frame ts (ts[i := (ts ! i)\<lparr>remaining := remaining (ts ! i) - a\<rparr>])"
  unfolding task_frame_def
proof (intro conjI allI impI)
  fix j assume j: "j < length ts"
  show "name (ts[i := (ts ! i)\<lparr>remaining := remaining (ts ! i) - a\<rparr>] ! j) = name (ts ! j)"
    using j by (cases "i = j") simp_all
  show "time_per_item (ts[i := (ts ! i)\<lparr>remaining := remaining (ts ! i) - a\<rparr>] ! j) = time_per_item (ts ! j)"
    using j by (cases "i = j") simp_all
  show "difficulty (ts[i := (ts ! i)\<lparr>remaining := remaining (ts ! i) - a\<rparr>] ! j) = difficulty (ts ! j)"
    using j by (cases "i = j") simp_all
  show "priority (ts[i := (ts ! i)\<lparr>remaining := remaining (ts ! i) - a\<rparr>] ! j) = priority (ts ! j)"
    using j by (cases "i = j") simp_all
  show "remaining (ts[i := (ts ! i)\<lparr>remaining := remaining (ts ! i) - a\<rparr>] ! j) \<le> remaining (ts ! j)"
    using j assms by (cases "i = j") simp_all
  show "0 \<le> remaining (ts[i := (ts ! i)\<lparr>remaining := remaining (ts ! i) - a\<rparr>] ! j)"
    if "0 \<le> remaining (ts ! j)"
    using j assms that by (cases "i = j") simp_all
  show "remaining (ts[i := (ts ! i)\<lparr>remaining := remaining (ts ! i) - a\<rparr>] ! j) = remaining (ts ! j)"
    if "time_per (ts ! j) \<le> 0"
    using j assms that by (cases "i = j") simp_all
qed simp

lemma step_task_frame: "task_frame (store s) (store (step_task s i))"
proof -
  consider "step_task s i = s"
    | a where "0 < a" "a \<le> remaining (store s ! i)" "eligible (store s ! i)"
        "step_task s i = assign_items i a (time_per (store s ! i)) s"
    using step_task_cases [of s i] by blast
  then show ?thesis
  proof cases
    case 1
    then show ?thesis by (simp add: task_frame_refl)
  next
    case 2
    then show ?thesis
      by (simp add: assign_items_store task_frame_update eligible_def)
  qed
qed

lemma foldl_step_task_frame: "task_frame (store s) (store (foldl step_task s order))"
proof (induction order arbitrary: s)
  case Nil
  then show ?case by (simp add: task_frame_refl)
next
  case (Cons i order)
  show ?case
    using task_frame_trans [OF step_task_frame [of s i] Cons.IH [of "step_task s i"]]
    by simp
qed

lemma day_pass_frame: "task_frame ts (store (day_pass c order ts))"
  using foldl_step_task_frame [of "\<lparr>store = ts, remaining_time = c, any_assigned = False, day_plan = []\<rparr>" order]
  by (simp add: day_pass_def)

lemma alloc_days_frame: "task_frame ts (snd (alloc_days cs order ts))"
proof (induction cs arbitrary: ts)
  case Nil
  then show ?case by (simp add: task_frame_refl)
next
  case (Cons c cs)
  show ?case
    using task_frame_trans [OF day_pass_frame [of ts c order] Cons.IH [of "store (day_pass c order ts)"]]
    by (simp add: Let_def)
qed

lemma length_alloc_days: "length (fst (alloc_days cs order ts)) = length cs"
  by (induction cs arbitrary: ts) (simp_all add: Let_def)

section \<open>Conservation of the remaining counts\<close>

lemma task_frame_names: "task_frame ts ts' \<Longrightarrow> map name ts' = map name ts"
  by (rule nth_equalityI) (simp_all add: task_frame_def)

lemma assigned_of_append [simp]:
  "assigned_of n (as @ bs) = assigned_of n as + assigned_of n bs"
  by (simp add: assigned_of_def)

lemma assigned_of_Nil [simp]: "assigned_of n [] = 0"
  by (simp add: assigned_of_def)

lemma assigned_of_single [simp]:
  "assigned_of n [a] = (if asg_name a = n then asg_assigned a else 0)"
  by (simp add: assigned_of_def)

lemma step_task_conserve:
  assumes i: "i < length (store s)" and j: "j < length (store s)"
    and d: "distinct (map name (store s))"
  shows "remaining (store (step_task s i) ! j) +
           assigned_of (name (store s ! j)) (day_plan (step_task s i)) =
         remaining (store s ! j) + assigned_of (name (store s ! j)) (day_plan s)"
proof -
  have nm: "name (store s ! i) = name (store s ! j) \<longleftrightarrow> i = j"
    using i j d nth_eq_iff_index_eq [of "map name (store s)" i j] by simp
  consider "step_task s i = s"
    | a where "0 < a" "step_task s i = assign_items i a (time_per (store s ! i)) s"
    using step_task_cases [of s i] by blast
  then show ?thesis
  proof cases
    case 1
    then show ?thesis by simp
  next
    case 2
    show ?thesis
    proof (cases "i = j")
      case True
      then show ?thesis using 2 i by (simp add: assign_items_store assign_items_plan)
    next
      case False
      then show ?thesis using 2 i j nm by (simp add: assign_items_store assign_items_plan)
    qed
  qed
qed

lemma foldl_step_task_conserve:
  assumes o: "\<forall>i\<in>set order. i < length ts" and j: "j < length ts"
    and d: "distinct (map name ts)" and f: "task_frame ts (store s)"
  shows "remaining (store (foldl step_task s order) ! j) +
           assigned_of (name (ts ! j)) (day_plan (foldl step_task s order)) =
         remaining (store s ! j) + assigned_of (name (ts ! j)) (day_plan s)"
proof -
  let ?P = "\<lambda>s'::day_state. task_frame ts (store s') \<and>
     remaining (store s' ! j) + assigned_of (name (ts ! j)) (day_plan s') =
     remaining (store s ! j) + assigned_of (name (ts ! j)) (day_plan s)"
  have "?P (foldl step_task s order)"
  proof (rule foldl_step_task_invariant)
    show "?P s" using f by simp
  next
    fix s' i assume i: "i \<in> set order" and P: "?P s'"
    have len: "length (store s') = length ts" using P by (simp add: task_frame_def)
    have nms: "map name (store s') = map name ts" using P by (simp add: task_frame_names)
    have nj: "name (store s' ! j) = name (ts ! j)" using P j by (simp add: task_frame_def)
    have "remaining (store (step_task s' i) ! j) +
           assigned_of (name (store s' ! j)) (day_plan (step_task s' i)) =
         remaining (store s' ! j) + assigned_of (name (store s' ! j)) (day_plan s')"
      using step_task_conserve [of i s' j] i o j d len nms by simp
    moreover have "task_frame ts (store (step_task s' i))"
      using task_frame_trans [OF _ step_task_frame [of s' i]] P by blast
    ultimately show "?P (step_task s' i)" using P nj by simp
  qed
  then show ?thesis by simp
qed

lemma day_pass_conserve:
  assumes "\<forall>i\<in>set order. i < length ts" and "j < length ts" and "distinct (map name ts)"
  shows "remaining (store (day_pass c order ts) ! j) +
           assigned_of (name (ts ! j)) (day_plan (day_pass c order ts)) = remaining (ts ! j)"
  using foldl_step_task_conserve [OF assms,
      of "\<lparr>store = ts, remaining_time = c, any_assigned = False, day_plan = []\<rparr>"]
  by (simp add: day_pass_def task_frame_refl)

lemma assigned_of_concat_Cons:
  "assigned_of n (concat (p # ps)) = assigned_of n p + assigned_of n (concat ps)"
  by simp

lemma alloc_days_conserve:
  assumes "\<forall>i\<in>set order. i < length ts" and "j < length ts" and "distinct (map name ts)"
  shows "remaining (snd (alloc_days cs order ts) ! j) +
           assigned_of (name (ts ! j)) (concat (fst (alloc_days cs order ts))) = remaining (ts ! j)"
  using assms
proof (induction cs arbitrary: ts)
  case Nil
  then show ?case by simp
next
  case (Cons c cs)
  let ?ts' = "store (day_pass c order ts)"
  have f: "task_frame ts ?ts'" by (rule day_pass_frame)
  have len: "length ?ts' = length ts" using f by (simp add: task_frame_def)
  have nms: "map name ?ts' = map name ts" using f by (rule task_frame_names)
  have nj: "name (?ts' ! j) = name (ts ! j)" using f Cons.prems by (simp add: task_frame_def)
  have ih: "remaining (snd (alloc_days cs order ?ts') ! j) +
      assigned_of (name (?ts' ! j)) (concat (fst (alloc_days cs order ?ts'))) = remaining (?ts' ! j)"
    using Cons.IH [of ?ts'] Cons.prems len nms by simp
  have dp: "remaining (?ts' ! j) + assigned_of (name (ts ! j)) (day_plan (day_pass c order ts))
      = remaining (ts ! j)"
    using day_pass_conserve [of order ts j c] Cons.prems by simp
  show ?case using ih dp nj by (simp add: Let_def)
qed

section \<open>The assignment records\<close>

lemma task_frame_time_per:
  "task_frame ts ts' \<Longrightarrow> j < length ts \<Longrightarrow> time_per (ts' ! j) = time_per (ts ! j)"
  by (simp add: task_frame_def time_per_def)

lemma record_of_frame:
  assumes "task_frame ts ts'"
  shows "record_of ts' a \<longleftrightarrow> record_of ts a"
proof -
  have len: "length ts' = length ts" using assms by (simp add: task_frame_def)
  have "name (ts' ! i) = name (ts ! i)" "time_per (ts' ! i) = time_per (ts ! i)"
    if "i < length ts" for i
    using assms that by (simp_all add: task_frame_def time_per_def)
  then show ?thesis unfolding record_of_def len by auto
qed

lemma step_task_records:
  assumes i: "i < length (store s)" and r: "\<forall>a\<in>set (day_plan s). record_of (store s) a"
  shows "\<forall>a\<in>set (day_plan (step_task s i)). record_of (store s) a"
proof -
  consider "step_task s i = s"
    | a where "0 < a" "eligible (store s ! i)"
        "step_task s i = assign_items i a (time_per (store s ! i)) s"
    using step_task_cases [of s i] by blast
  then show ?thesis
  proof cases
    case 1
    then show ?thesis using r by simp
  next
    case 2
    have "record_of (store s)
      \<lparr>asg_name = name (store s ! i), asg_assigned = a,
        asg_time = of_int a * time_per (store s ! i)\<rparr>"
      unfolding record_of_def using i 2 by (auto simp: eligible_def)
    then show ?thesis using 2 r by (simp add: assign_items_plan)
  qed
qed

lemma foldl_step_task_records:
  assumes o: "\<forall>i\<in>set order. i < length ts" and f: "task_frame ts (store s)"
    and r: "\<forall>a\<in>set (day_plan s). record_of ts a"
  shows "\<forall>a\<in>set (day_plan (foldl step_task s order)). record_of ts a"
proof -
  let ?P = "\<lambda>s'::day_state. task_frame ts (store s') \<and> (\<forall>a\<in>set (day_plan s'). record_of ts a)"
  have "?P (foldl step_task s order)"
  proof (rule foldl_step_task_invariant)
    show "?P s" using f r by simp
  next
    fix s' i assume i: "i \<in> set order" and P: "?P s'"
    have len: "length (store s') = length ts" using P by (simp add: task_frame_def)
    have "\<forall>a\<in>set (day_plan s'). record_of (store s') a"
      using P record_of_frame [of ts "store s'"] by simp
    then have "\<forall>a\<in>set (day_plan (step_task s' i)). record_of (store s') a"
      using step_task_records [of i s'] i o len by simp
    then have "\<forall>a\<in>set (day_plan (step_task s' i)). record_of ts a"
      using P record_of_frame [of ts "store s'"] by simp
    moreover have "task_frame ts (store (step_task s' i))"
      using task_frame_trans [OF _ step_task_frame [of s' i]] P by blast
    ultimately show "?P (step_task s' i)" by simp
  qed
  then show ?thesis by simp
qed

lemma day_pass_records:
  assumes "\<forall>i\<in>set order. i < length ts"
  shows "\<forall>a\<in>set (day_plan (day_pass c order ts)). record_of ts a"
  using foldl_step_task_records [OF assms,
      of "\<lparr>store = ts, remaining_time = c, any_assigned = False, day_plan = []\<rparr>"]
  by (simp add: day_pass_def task_frame_refl)

lemma alloc_days_records:
  assumes "\<forall>i\<in>set order. i < length ts"
  shows "\<forall>a\<in>set (concat (fst (alloc_days cs order ts))). record_of ts a"
  using assms
proof (induction cs arbitrary: ts)
  case Nil
  then show ?case by simp
next
  case (Cons c cs)
  let ?ts' = "store (day_pass c order ts)"
  have f: "task_frame ts ?ts'" by (rule day_pass_frame)
  have len: "length ?ts' = length ts" using f by (simp add: task_frame_def)
  have "\<forall>a\<in>set (concat (fst (alloc_days cs order ?ts'))). record_of ?ts' a"
    using Cons.IH [of ?ts'] Cons.prems len by simp
  then have "\<forall>a\<in>set (concat (fst (alloc_days cs order ?ts'))). record_of ts a"
    using record_of_frame [OF f] by simp
  moreover have "\<forall>a\<in>set (day_plan (day_pass c order ts)). record_of ts a"
    using day_pass_records [of order ts c] Cons.prems by simp
  ultimately show ?case by (auto simp add: Let_def)
qed

lemma tasks_sorted_valid: "\<forall>i\<in>set (tasks_sorted tasks). i < length tasks"
  by (simp add: tasks_sorted_def)

section \<open>One day of the plan\<close>

lemma alloc_days_nth:
  "d < length cs \<Longrightarrow>
   fst (alloc_days cs order ts) ! d =
     day_plan (day_pass (cs ! d) order (snd (alloc_days (take d cs) order ts)))"
proof (induction cs arbitrary: d ts)
  case Nil
  then show ?case by simp
next
  case (Cons c cs)
  show ?case
  proof (cases d)
    case 0
    then show ?thesis by (simp add: Let_def)
  next
    case (Suc e)
    then have "e < length cs" using Cons.prems by simp
    then show ?thesis using Cons.IH [of e "store (day_pass c order ts)"] Suc
      by (simp add: Let_def)
  qed
qed

lemma allocate_by_priority_nth:
  "d < length capacities \<Longrightarrow>
   fst (allocate_by_priority capacities tasks) ! d =
     day_plan (day_pass (capacities ! d) (tasks_sorted tasks)
       (snd (allocate_by_priority (take d capacities) tasks)))"
  unfolding allocate_by_priority_def by (rule alloc_days_nth)

lemma step_task_plan_grows:
  "day_plan s \<noteq> [] \<Longrightarrow> day_plan (step_task s i) \<noteq> []"
  using step_task_cases [of s i] by (auto simp: assign_items_plan)

lemma foldl_step_task_plan_grows:
  "day_plan s \<noteq> [] \<Longrightarrow> day_plan (foldl step_task s order) \<noteq> []"
  by (induction order arbitrary: s) (simp_all add: step_task_plan_grows)

lemma step_task_first_eligible:
  assumes e: "eligible (store s ! i)" and t: "0 < remaining_time s" and n: "\<not> any_assigned s"
  shows "day_plan (step_task s i) \<noteq> []"
proof (cases "0 < \<lfloor>remaining_time s / time_per (store s ! i)\<rfloor>")
  case True
  have "0 < min \<lfloor>remaining_time s / time_per (store s ! i)\<rfloor> (remaining (store s ! i))"
    using True e by (simp add: eligible_def)
  then show ?thesis using step_task_fit [OF e t True] by (simp add: assign_items_plan)
next
  case False
  show ?thesis using step_task_force [OF e t False n] by (simp add: assign_items_plan)
qed

lemma foldl_step_task_nonempty:
  assumes "0 < remaining_time s" and "\<not> any_assigned s"
    and "\<exists>i\<in>set order. eligible (store s ! i)"
  shows "day_plan (foldl step_task s order) \<noteq> []"
  using assms
proof (induction order)
  case Nil
  then show ?case by simp
next
  case (Cons i order)
  show ?case
  proof (cases "eligible (store s ! i)")
    case True
    then have "day_plan (step_task s i) \<noteq> []"
      using Cons.prems by (simp add: step_task_first_eligible)
    then show ?thesis by (simp add: foldl_step_task_plan_grows)
  next
    case False
    then have "step_task s i = s" by (rule step_task_skip)
    moreover have "\<exists>i\<in>set order. eligible (store s ! i)" using Cons.prems False by auto
    ultimately show ?thesis using Cons.IH Cons.prems by simp
  qed
qed

lemma day_pass_nonempty:
  assumes "0 < c" and "j \<in> set order" and "eligible (ts ! j)"
  shows "day_plan (day_pass c order ts) \<noteq> []"
  unfolding day_pass_def using assms
  by (intro foldl_step_task_nonempty) auto

lemma tasks_sorted_set: "set (tasks_sorted tasks) = {0..<length tasks}"
  by (simp add: tasks_sorted_def)

section \<open>The budget of a day\<close>





section \<open>The order of a day's records\<close>








section \<open>The aggregation of the history\<close>

lemma map_of_aggregate_row:
  "map_of (aggregate_row T r) n =
     (if row_name r = idle_sentinel \<or> n \<noteq> row_name r then map_of T n
      else Some (add_row r (case map_of T n of None \<Rightarrow> new_info r | Some i \<Rightarrow> i)))"
  by (auto simp: aggregate_row_def Let_def AList.map_of_map_entry AList.update_conv'
      split: option.splits)

lemma distinct_aggregate_row:
  "distinct (map fst T) \<Longrightarrow> distinct (map fst (aggregate_row T r))"
  by (simp add: aggregate_row_def Let_def AList.distinct_map_entry AList.distinct_update)

lemma distinct_foldl_aggregate_row:
  "distinct (map fst T) \<Longrightarrow> distinct (map fst (foldl aggregate_row T rows))"
  by (induction rows arbitrary: T) (simp_all add: distinct_aggregate_row)

lemma history_rows_snoc:
  "history_rows n (rows @ [r]) = history_rows n rows @ (if row_name r = n then [r] else [])"
  by (simp add: history_rows_def)

lemma history_rows_empty: "history_rows n rows = [] \<longleftrightarrow> n \<notin> row_name ` set rows"
  by (auto simp: history_rows_def filter_empty_conv)

lemma spec_info_other:
  "row_name r \<noteq> n \<Longrightarrow> spec_info n (rows @ [r]) = spec_info n rows"
  by (simp add: spec_info_def spec_total_assigned_def spec_samples_def spec_first_day_def
      history_rows_snoc)

lemma spec_info_fresh:
  assumes "row_name r = n" and "n \<notin> row_name ` set rows"
  shows "add_row r (new_info r) = spec_info n (rows @ [r])"
proof -
  have "history_rows n rows = []" using assms(2) by (simp add: history_rows_empty)
  then have "history_rows n (rows @ [r]) = [r]" using assms(1) by (simp add: history_rows_snoc)
  then show ?thesis
    by (simp add: add_row_def new_info_def spec_info_def spec_total_assigned_def
        spec_samples_def spec_first_day_def Let_def)
qed

lemma spec_info_known:
  assumes "row_name r = n" and "n \<in> row_name ` set rows"
  shows "add_row r (spec_info n rows) = spec_info n (rows @ [r])"
proof -
  have ne: "history_rows n rows \<noteq> []" using assms(2) by (simp add: history_rows_empty)
  have h: "history_rows n (rows @ [r]) = history_rows n rows @ [r]"
    using assms(1) by (simp add: history_rows_snoc)
  have "Min (row_day ` set (history_rows n rows @ [r])) =
        min (Min (row_day ` set (history_rows n rows))) (row_day r)"
    using ne by (simp add: min.commute)
  then show ?thesis
    unfolding add_row_def spec_info_def spec_total_assigned_def spec_samples_def
      spec_first_day_def h
    by (simp add: Let_def)
qed

lemma aggregate_lookup:
  "map_of (foldl aggregate_row [] rows) n =
     (if n \<noteq> idle_sentinel \<and> n \<in> row_name ` set rows then Some (spec_info n rows) else None)"
proof (induction rows rule: rev_induct)
  case Nil
  then show ?case by simp
next
  case (snoc r rows)
  show ?case
  proof (cases "row_name r = idle_sentinel \<or> n \<noteq> row_name r")
    case True
    then have "n \<noteq> idle_sentinel \<Longrightarrow> row_name r \<noteq> n" by auto
    then show ?thesis using True snoc.IH
      by (auto simp: map_of_aggregate_row spec_info_other)
  next
    case False
    then have r: "row_name r = n" "n \<noteq> idle_sentinel" by auto
    show ?thesis
    proof (cases "n \<in> row_name ` set rows")
      case True
      then show ?thesis using r snoc.IH spec_info_known [OF r(1) True]
        by (simp add: map_of_aggregate_row)
    next
      case False
      then show ?thesis using r snoc.IH spec_info_fresh [OF r(1) False]
        by (simp add: map_of_aggregate_row)
    qed
  qed
qed

lemma set_time_per_item_spec:
  "set_time_per_item (spec_info n rows) =
     (spec_info n rows)\<lparr>info_time_per_item := Some (spec_time_per_item n rows)\<rparr>"
  by (simp add: set_time_per_item_def spec_info_def spec_time_per_item_def Let_def)

lemma aggregate_tasks_lookup:
  "map_of (aggregate_tasks_from_plan rows) n =
     (if n \<noteq> idle_sentinel \<and> n \<in> row_name ` set rows
      then Some ((spec_info n rows)\<lparr>info_time_per_item := Some (spec_time_per_item n rows)\<rparr>)
      else None)"
  by (simp add: aggregate_tasks_from_plan_def map_of_map aggregate_lookup set_time_per_item_spec)

lemma aggregate_tasks_keys:
  "map fst (aggregate_tasks_from_plan rows) = map fst (foldl aggregate_row [] rows)"
  by (simp add: aggregate_tasks_from_plan_def case_prod_beta comp_def)

lemma aggregate_tasks_distinct: "distinct (map fst (aggregate_tasks_from_plan rows))"
  by (simp add: aggregate_tasks_keys distinct_foldl_aggregate_row)

section \<open>The derived task set\<close>

lemma tasks_for_alloc_copy: "tasks_for_alloc ts = ts"
  by (simp add: tasks_for_alloc_def map_idI)

lemma map_of_map_keyed:
  "map_of (map (\<lambda>(k, v). (k, f k v)) xs) k = map_option (f k) (map_of xs k)"
  by (induction xs) auto

lemma derive_remaining_max: "derive_remaining total_n prev dn = max 0 (total_n - prev - dn)"
  by (simp add: derive_remaining_def Let_def)

lemma remaining_tasks_names:
  "map name (remaining_tasks plan_rows today completed tasks_info) = map fst tasks_info"
  by (simp add: remaining_tasks_def case_prod_beta comp_def Let_def)

lemma allocate_at_most_remaining:
  assumes d: "distinct (map name ts)" and k: "k < length ts" and r: "0 \<le> remaining (ts ! k)"
  shows "assigned_of (name (ts ! k)) (concat (fst (allocate_by_priority caps ts))) \<le>
         remaining (ts ! k)"
proof -
  have "remaining (snd (allocate_by_priority caps ts) ! k) +
      assigned_of (name (ts ! k)) (concat (fst (allocate_by_priority caps ts))) =
      remaining (ts ! k)"
    unfolding allocate_by_priority_def
    using alloc_days_conserve [OF tasks_sorted_valid k d] .
  moreover have "task_frame ts (snd (allocate_by_priority caps ts))"
    unfolding allocate_by_priority_def by (rule alloc_days_frame)
  then have "0 \<le> remaining (snd (allocate_by_priority caps ts) ! k)"
    using k r by (simp add: task_frame_def)
  ultimately show ?thesis by simp
qed

section \<open>The accepted counts\<close>

lemma completed_entry:
  assumes "map_of tasks_info n = Some i"
  shows "map_of (completed_by_task plan_rows today answers tasks_info) n =
    Some \<lparr>done_today = fst (clamp_done (total_assigned i) (prev_assigned plan_rows n today)
                          (typed_count plan_rows today answers n (total_assigned i))),
          prev_done = prev_assigned plan_rows n today\<rparr>"
  using assms unfolding completed_by_task_def typed_count_def Let_def
  by (simp add: map_of_map_keyed)

lemma keys_of_filter:
  "n \<in> set (map fst (filter P xs)) \<longleftrightarrow> (\<exists>i. (n, i) \<in> set xs \<and> P (n, i))"
  by (induction xs) auto

lemma printed_warnings_iff:
  assumes d: "distinct (map fst tasks_info)" and l: "map_of tasks_info n = Some i"
  shows "n \<in> set (printed_warnings plan_rows today answers tasks_info) \<longleftrightarrow>
    snd (clamp_done (total_assigned i) (prev_assigned plan_rows n today)
          (typed_count plan_rows today answers n (total_assigned i)))"
proof -
  have only: "j = i" if "(n, j) \<in> set tasks_info" for j
    using that d l by simp
  have here: "(n, i) \<in> set tasks_info" using l by (rule map_of_SomeD)
  have "n \<in> set (printed_warnings plan_rows today answers tasks_info) \<longleftrightarrow>
    (\<exists>j. (n, j) \<in> set tasks_info \<and>
       snd (clamp_done (total_assigned j) (prev_assigned plan_rows n today)
          (typed_count plan_rows today answers n (total_assigned j))))"
    unfolding printed_warnings_def typed_count_def Let_def keys_of_filter by simp
  also have "\<dots> \<longleftrightarrow>
    snd (clamp_done (total_assigned i) (prev_assigned plan_rows n today)
          (typed_count plan_rows today answers n (total_assigned i)))"
    using only here by blast
  finally show ?thesis .
qed

lemma clamp_done_cases:
  "clamp_done total_n prev dn =
     (if dn < 0 then (0, False)
      else if max 0 (total_n - prev) < dn then (max 0 (total_n - prev), True)
      else (dn, False))"
  by (auto simp: clamp_done_def Let_def)

lemma run_derived_remaining:
  assumes s: "n \<noteq> idle_sentinel" and m: "n \<in> row_name ` set plan_rows"
  shows "\<exists>k<length (fst (run plan_rows day_capacities today_in answers entered)).
    name (fst (run plan_rows day_capacities today_in answers entered) ! k) = n \<and>
    remaining (fst (run plan_rows day_capacities today_in answers entered) ! k) =
      max 0 (spec_total_assigned n plan_rows - prev_assigned plan_rows n (clamp_today today_in) -
        fst (clamp_done (spec_total_assigned n plan_rows)
               (prev_assigned plan_rows n (clamp_today today_in))
               (typed_count plan_rows (clamp_today today_in) answers n
                  (spec_total_assigned n plan_rows))))"
proof -
  let ?info = "aggregate_tasks_from_plan plan_rows"
  let ?today = "clamp_today today_in"
  let ?completed = "completed_by_task plan_rows ?today answers ?info"
  let ?rts = "remaining_tasks plan_rows ?today ?completed ?info"
  let ?i = "(spec_info n plan_rows)\<lparr>info_time_per_item := Some (spec_time_per_item n plan_rows)\<rparr>"
  have run1: "fst (run plan_rows day_capacities today_in answers entered) = ?rts"
    by (simp add: run_def Let_def)
  have look: "map_of ?info n = Some ?i"
    using s m by (simp add: aggregate_tasks_lookup)
  then have "(n, ?i) \<in> set ?info" by (rule map_of_SomeD)
  then obtain k where k: "k < length ?info" "?info ! k = (n, ?i)"
    by (auto simp: in_set_conv_nth)
  have tot: "total_assigned ?i = spec_total_assigned n plan_rows" by (simp add: spec_info_def)
  have c: "map_of ?completed n =
    Some \<lparr>done_today = fst (clamp_done (spec_total_assigned n plan_rows)
               (prev_assigned plan_rows n ?today)
               (typed_count plan_rows ?today answers n (spec_total_assigned n plan_rows))),
          prev_done = prev_assigned plan_rows n ?today\<rparr>"
    using completed_entry [OF look, of plan_rows ?today answers] unfolding tot .
  have len: "length ?rts = length ?info" by (simp add: remaining_tasks_def)
  have "name (?rts ! k) = n \<and> remaining (?rts ! k) =
      max 0 (spec_total_assigned n plan_rows - prev_assigned plan_rows n ?today -
        fst (clamp_done (spec_total_assigned n plan_rows)
               (prev_assigned plan_rows n ?today)
               (typed_count plan_rows ?today answers n (spec_total_assigned n plan_rows))))"
    using k c by (simp add: remaining_tasks_def Let_def spec_info_def derive_remaining_max)
  then show ?thesis unfolding run1 using k(1) len by auto
qed

section \<open>The turns of a day\<close>

















section \<open>Exact and rounded arithmetic\<close>







lemma binade_numeral:
  "binade (numeral k) x =
     (if 2 \<le> x then binade (pred_numeral k) (x / 2) + 1
      else if x < 1 then binade (pred_numeral k) (x * 2) - 1
      else 0)"
  by (simp add: numeral_eq_Suc)

lemma binary64_literals:
  "binary64 (17 / 10) = 7656119366529843 / 4503599627370496"
  "binary64 (1 / 10) = 3602879701896397 / 36028797018963968"
  by (simp_all add: binary64_def round_half_even_def binade_numeral Let_def)

lemma binary64_steps:
  "binary64 (3602879701896397 / 36028797018963968 * 1) = 3602879701896397 / 36028797018963968"
  "binary64 (7656119366529843 / 4503599627370496 / (3602879701896397 / 36028797018963968)) = 17"
  "binary64 (17 * (3602879701896397 / 36028797018963968)) = 7656119366529844 / 4503599627370496"
  "binary64 (7656119366529843 / 4503599627370496 - 7656119366529844 / 4503599627370496) =
     - (1 / 4503599627370496)"
  by (simp_all add: binary64_def round_half_even_def binade_numeral Let_def)

section \<open>Claims\<close>

text \<open>
  C3, the force-assignment scenario. With the capacities \<open>[0.5]\<close> and a single task
  of any name and priority with \<open>remaining = 1\<close>, \<open>time_per_item = 1.0\<close> and
  \<open>difficulty = 1.0\<close>, the allocator assigns one item of the task on day 0, recorded
  with its full cost of one hour although only half an hour was available, and the
  task's \<open>remaining\<close> ends at 0.
\<close>

theorem force_assignment_scenario:
  "allocate_by_priority [1 / 2]
     [\<lparr>name = n, remaining = 1, time_per_item = 1, difficulty = 1, priority = p\<rparr>] =
   ([[\<lparr>asg_name = n, asg_assigned = 1, asg_time = 1\<rparr>]],
    [\<lparr>name = n, remaining = 0, time_per_item = 1, difficulty = 1, priority = p\<rparr>])"
  by (simp add: allocate_by_priority_def tasks_sorted_def day_pass_def step_task_def
      time_per_def assign_items_def)

text \<open>
  C1, conservation. Task names are unique within a task set, so the records of a task
  are the records that bear its name. For every task of the list, \<^verbatim>\<open>remaining\<close> after
  the call is \<^verbatim>\<open>remaining\<close> before the call minus the sum of the assigned counts that
  the returned plan records for the task over all days, and a count that was not
  negative before the call is not negative after it.
\<close>

theorem allocate_conservation:
  assumes "distinct (map name tasks)" and "j < length tasks"
  shows "remaining (snd (allocate_by_priority capacities tasks) ! j) =
           remaining (tasks ! j) -
           assigned_of (name (tasks ! j)) (concat (fst (allocate_by_priority capacities tasks))) \<and>
         (0 \<le> remaining (tasks ! j) \<longrightarrow>
            0 \<le> remaining (snd (allocate_by_priority capacities tasks) ! j))"
proof -
  have "remaining (snd (allocate_by_priority capacities tasks) ! j) +
      assigned_of (name (tasks ! j)) (concat (fst (allocate_by_priority capacities tasks))) =
      remaining (tasks ! j)"
    unfolding allocate_by_priority_def
    using alloc_days_conserve [OF tasks_sorted_valid assms(2) assms(1)] .
  moreover have "task_frame tasks (snd (allocate_by_priority capacities tasks))"
    unfolding allocate_by_priority_def by (rule alloc_days_frame)
  ultimately show ?thesis using assms(2) by (simp add: task_frame_def)
qed

text \<open>The round-trip scenario of the specification as an instance.\<close>

theorem allocate_conservation_witness:
  "distinct (map name [\<lparr>name = ''X'', remaining = 3, time_per_item = 1, difficulty = 1, priority = 1\<rparr>]) \<and>
   (0::nat) < length [\<lparr>name = ''X'', remaining = 3, time_per_item = 1, difficulty = 1, priority = 1\<rparr>] \<and>
   remaining (snd (allocate_by_priority [2, 1]
      [\<lparr>name = ''X'', remaining = 3, time_per_item = 1, difficulty = 1, priority = 1\<rparr>]) ! 0) =
     3 - assigned_of ''X'' (concat (fst (allocate_by_priority [2, 1]
      [\<lparr>name = ''X'', remaining = 3, time_per_item = 1, difficulty = 1, priority = 1\<rparr>]))) \<and>
   0 \<le> remaining (snd (allocate_by_priority [2, 1]
      [\<lparr>name = ''X'', remaining = 3, time_per_item = 1, difficulty = 1, priority = 1\<rparr>]) ! 0)"
  using allocate_conservation [of "[\<lparr>name = ''X'', remaining = 3, time_per_item = 1, difficulty = 1, priority = 1\<rparr>]" 0 "[2, 1]"]
  by simp

text \<open>
  C4, degenerate-task exclusion. With unique task names, a task whose effective cost
  \<^verbatim>\<open>time_per_item * difficulty\<close> is not positive keeps its \<^verbatim>\<open>remaining\<close>, and no
  assignment record of any day bears its name. The source has no failing path here:
  its only partial operation, the division at line 111, is reached only past the test
  \<^verbatim>\<open>time_per <= 0\<close> that skips the task, so the model is a total function without
  an error value.
\<close>

theorem degenerate_task_exclusion:
  assumes d: "distinct (map name tasks)" and j: "j < length tasks"
    and c: "time_per_item (tasks ! j) * difficulty (tasks ! j) \<le> 0"
  shows "remaining (snd (allocate_by_priority capacities tasks) ! j) = remaining (tasks ! j) \<and>
         name (tasks ! j) \<notin> asg_name ` set (concat (fst (allocate_by_priority capacities tasks)))"
proof -
  have f: "task_frame tasks (snd (allocate_by_priority capacities tasks))"
    unfolding allocate_by_priority_def by (rule alloc_days_frame)
  have tp: "time_per (tasks ! j) \<le> 0" using c by (simp add: time_per_def)
  have 1: "remaining (snd (allocate_by_priority capacities tasks) ! j) = remaining (tasks ! j)"
    using f j tp by (simp add: task_frame_def)
  have r: "\<forall>a\<in>set (concat (fst (allocate_by_priority capacities tasks))). record_of tasks a"
    unfolding allocate_by_priority_def by (rule alloc_days_records [OF tasks_sorted_valid])
  have 2: "name (tasks ! j) \<notin> asg_name ` set (concat (fst (allocate_by_priority capacities tasks)))"
  proof
    assume "name (tasks ! j) \<in> asg_name ` set (concat (fst (allocate_by_priority capacities tasks)))"
    then obtain a where a: "a \<in> set (concat (fst (allocate_by_priority capacities tasks)))"
      and n: "asg_name a = name (tasks ! j)" by (metis imageE)
    from r a have "record_of tasks a" by blast
    then obtain i where i: "i < length tasks" "asg_name a = name (tasks ! i)"
      "0 < time_per (tasks ! i)" by (auto simp: record_of_def)
    have "i = j"
      using d i(1) j i(2) n nth_eq_iff_index_eq [of "map name tasks" i j] by simp
    then show False using i(3) tp by simp
  qed
  show ?thesis using 1 2 by simp
qed

text \<open>An instance: the degenerate task \<open>A\<close> comes first in priority and is passed over.\<close>

theorem degenerate_task_exclusion_witness:
  "distinct (map name
     [\<lparr>name = ''A'', remaining = 2, time_per_item = 0, difficulty = 1, priority = 1\<rparr>,
      \<lparr>name = ''B'', remaining = 1, time_per_item = 1, difficulty = 1, priority = 2\<rparr>]) \<and>
   remaining (snd (allocate_by_priority [1, 1]
     [\<lparr>name = ''A'', remaining = 2, time_per_item = 0, difficulty = 1, priority = 1\<rparr>,
      \<lparr>name = ''B'', remaining = 1, time_per_item = 1, difficulty = 1, priority = 2\<rparr>]) ! 0) = 2 \<and>
   ''A'' \<notin> asg_name ` set (concat (fst (allocate_by_priority [1, 1]
     [\<lparr>name = ''A'', remaining = 2, time_per_item = 0, difficulty = 1, priority = 1\<rparr>,
      \<lparr>name = ''B'', remaining = 1, time_per_item = 1, difficulty = 1, priority = 2\<rparr>])))"
  using degenerate_task_exclusion [of
     "[\<lparr>name = ''A'', remaining = 2, time_per_item = 0, difficulty = 1, priority = 1\<rparr>,
      \<lparr>name = ''B'', remaining = 1, time_per_item = 1, difficulty = 1, priority = 2\<rparr>]" 0 "[1, 1]"]
  by simp

text \<open>
  C6, the frame. The call leaves the number of tasks and every task's \<^verbatim>\<open>name\<close>,
  \<^verbatim>\<open>time_per_item\<close>, \<^verbatim>\<open>difficulty\<close> and \<^verbatim>\<open>priority\<close> as they were, and
  \<^verbatim>\<open>remaining\<close> is only ever reduced. The capacities are an argument that the source
  only reads (line 102), so the model does not return them.
\<close>

theorem allocate_frame:
  "length (snd (allocate_by_priority capacities tasks)) = length tasks \<and>
   map name (snd (allocate_by_priority capacities tasks)) = map name tasks \<and>
   map time_per_item (snd (allocate_by_priority capacities tasks)) = map time_per_item tasks \<and>
   map difficulty (snd (allocate_by_priority capacities tasks)) = map difficulty tasks \<and>
   map priority (snd (allocate_by_priority capacities tasks)) = map priority tasks \<and>
   list_all2 (\<lambda>t' t. remaining t' \<le> remaining t) (snd (allocate_by_priority capacities tasks)) tasks"
proof -
  have f: "task_frame tasks (snd (allocate_by_priority capacities tasks))"
    unfolding allocate_by_priority_def by (rule alloc_days_frame)
  then have len: "length (snd (allocate_by_priority capacities tasks)) = length tasks"
    by (simp add: task_frame_def)
  have "map name (snd (allocate_by_priority capacities tasks)) = map name tasks"
    by (rule nth_equalityI) (use f in \<open>simp_all add: task_frame_def\<close>)
  moreover have "map time_per_item (snd (allocate_by_priority capacities tasks)) = map time_per_item tasks"
    by (rule nth_equalityI) (use f in \<open>simp_all add: task_frame_def\<close>)
  moreover have "map difficulty (snd (allocate_by_priority capacities tasks)) = map difficulty tasks"
    by (rule nth_equalityI) (use f in \<open>simp_all add: task_frame_def\<close>)
  moreover have "map priority (snd (allocate_by_priority capacities tasks)) = map priority tasks"
    by (rule nth_equalityI) (use f in \<open>simp_all add: task_frame_def\<close>)
  moreover have "list_all2 (\<lambda>t' t. remaining t' \<le> remaining t) (snd (allocate_by_priority capacities tasks)) tasks"
    using f by (simp add: list_all2_conv_all_nth task_frame_def)
  ultimately show ?thesis using len by simp
qed

text \<open>
  C2, the capacity-or-force invariant. The task list at the start of day \<open>d\<close> is what
  the call on the first \<open>d\<close> capacities leaves behind. As the claim is stated, any
  task with work remaining should keep a day of positive capacity from staying empty;
  the guard at line 109 skips a task whose item cost is not positive, so such a task
  does not. With a capacity of one hour and a single task of one item that costs
  nothing, day 0 stays empty.
\<close>

theorem capacity_or_force_counterexample:
  "(0::nat) < length [1 :: real] \<and> (0::real) < [1] ! 0 \<and>
   0 < remaining (snd (allocate_by_priority (take 0 [1])
     [\<lparr>name = ''X'', remaining = 1, time_per_item = 0, difficulty = 1, priority = 1\<rparr>]) ! 0) \<and>
   fst (allocate_by_priority [1]
     [\<lparr>name = ''X'', remaining = 1, time_per_item = 0, difficulty = 1, priority = 1\<rparr>]) ! 0 = []"
  by (simp add: allocate_by_priority_def tasks_sorted_def day_pass_def step_task_def
      time_per_def assign_items_def)

text \<open>
  C2 as the code has it: on a day of positive capacity, if some task has
  \<^verbatim>\<open>remaining > 0\<close> at the start of the day's pass and a positive effective cost
  \<^verbatim>\<open>time_per_item * difficulty\<close>, the day's assignment list is not empty.
\<close>

theorem capacity_or_force:
  assumes d: "d < length capacities" and c: "0 < capacities ! d"
    and j: "j < length tasks"
    and r: "0 < remaining (snd (allocate_by_priority (take d capacities) tasks) ! j)"
    and p: "0 < time_per_item (tasks ! j) * difficulty (tasks ! j)"
  shows "fst (allocate_by_priority capacities tasks) ! d \<noteq> []"
proof -
  let ?ts = "snd (allocate_by_priority (take d capacities) tasks)"
  have f: "task_frame tasks ?ts"
    unfolding allocate_by_priority_def by (rule alloc_days_frame)
  have "time_per (?ts ! j) = time_per (tasks ! j)"
    using f j by (rule task_frame_time_per)
  then have "eligible (?ts ! j)" using r p by (simp add: eligible_def time_per_def)
  moreover have "j \<in> set (tasks_sorted tasks)" using j by (simp add: tasks_sorted_set)
  ultimately have "day_plan (day_pass (capacities ! d) (tasks_sorted tasks) ?ts) \<noteq> []"
    using c by (simp add: day_pass_nonempty)
  then show ?thesis using d by (simp add: allocate_by_priority_nth)
qed

text \<open>The force-assignment scenario as an instance.\<close>

theorem capacity_or_force_witness:
  "(0::nat) < length [1 / 2 :: real] \<and> (0::real) < [1 / 2] ! 0 \<and>
   0 < remaining (snd (allocate_by_priority (take 0 [1 / 2])
     [\<lparr>name = ''X'', remaining = 1, time_per_item = 1, difficulty = 1, priority = 1\<rparr>]) ! 0) \<and>
   fst (allocate_by_priority [1 / 2]
     [\<lparr>name = ''X'', remaining = 1, time_per_item = 1, difficulty = 1, priority = 1\<rparr>]) ! 0 \<noteq> []"
  using capacity_or_force [of 0 "[1 / 2]" 0
     "[\<lparr>name = ''X'', remaining = 1, time_per_item = 1, difficulty = 1, priority = 1\<rparr>]"]
  by (simp add: allocate_by_priority_def)







text \<open>
  C7, completion-input clamping, stated of what \<^verbatim>\<open>run\<close> stores and prints. For every
  task name of the history, with \<open>typed\<close> the number read at the task's prompt and
  \<open>bound\<close> the value \<^verbatim>\<open>max(0, total_assigned - prev)\<close>: the dictionary
  \<^verbatim>\<open>completed_by_task\<close> holds an entry for the name whose \<^verbatim>\<open>done_today\<close> lies
  between 0 and \<open>bound\<close>, and it is the count from which \<^verbatim>\<open>run\<close> derives the
  \<^verbatim>\<open>remaining\<close> of the task of that name; a negative \<open>typed\<close> is stored as 0, a \<open>typed\<close> above
  \<open>bound\<close> is stored as \<open>bound\<close> and the warning for the name is printed, and any
  other \<open>typed\<close> is stored as it is, without a warning. With \<^verbatim>\<open>total_assigned = 5\<close>,
  \<^verbatim>\<open>prev = 2\<close> and 10 typed, 3 is stored, the warning is printed, and the task that
  \<^verbatim>\<open>run\<close> derives for the name has \<^verbatim>\<open>remaining = 0\<close>.
\<close>

theorem completion_input_clamping:
  fixes plan_rows :: "row list" and answers :: "string \<Rightarrow> done_input"
    and n :: string and today_in :: int and day_capacities entered :: "real list"
  defines "today \<equiv> clamp_today today_in"
  defines "total_n \<equiv> spec_total_assigned n plan_rows"
  defines "prev \<equiv> prev_assigned plan_rows n today"
  defines "typed \<equiv> typed_count plan_rows today answers n total_n"
  defines "bound \<equiv> max 0 (total_n - prev)"
  defines "result \<equiv> run plan_rows day_capacities today_in answers entered"
  assumes s: "n \<noteq> idle_sentinel" and m: "n \<in> row_name ` set plan_rows"
  shows "\<exists>c. map_of (completed_by_task plan_rows today answers
                 (aggregate_tasks_from_plan plan_rows)) n = Some c \<and>
    prev_done c = prev \<and> 0 \<le> done_today c \<and> done_today c \<le> bound \<and>
    (\<exists>k<length (fst result). name (fst result ! k) = n \<and>
       remaining (fst result ! k) = max 0 (total_n - prev - done_today c)) \<and>
    (typed < 0 \<longrightarrow> done_today c = 0 \<and> n \<notin> set (snd (snd (snd result)))) \<and>
    (bound < typed \<longrightarrow> done_today c = bound \<and> n \<in> set (snd (snd (snd result)))) \<and>
    (0 \<le> typed \<and> typed \<le> bound \<longrightarrow>
       done_today c = typed \<and> n \<notin> set (snd (snd (snd result)))) \<and>
    (total_n = 5 \<and> prev = 2 \<and> typed = 10 \<longrightarrow>
       done_today c = 3 \<and> n \<in> set (snd (snd (snd result))) \<and>
       (\<exists>k<length (fst result). name (fst result ! k) = n \<and> remaining (fst result ! k) = 0))"
proof -
  let ?info = "aggregate_tasks_from_plan plan_rows"
  let ?i = "(spec_info n plan_rows)\<lparr>info_time_per_item := Some (spec_time_per_item n plan_rows)\<rparr>"
  let ?c = "\<lparr>done_today = fst (clamp_done total_n prev typed), prev_done = prev\<rparr>"
  have look: "map_of ?info n = Some ?i"
    using s m by (simp add: aggregate_tasks_lookup)
  have tot: "total_assigned ?i = total_n" by (simp add: spec_info_def total_n_def)
  have c: "map_of (completed_by_task plan_rows today answers ?info) n = Some ?c"
    using completed_entry [OF look, of plan_rows today answers]
    unfolding tot typed_def prev_def .
  have w: "n \<in> set (snd (snd (snd result))) \<longleftrightarrow> snd (clamp_done total_n prev typed)"
    using printed_warnings_iff [OF aggregate_tasks_distinct look, of plan_rows today answers]
    unfolding tot typed_def prev_def result_def today_def
    by (simp add: run_def Let_def)
  obtain k where k: "k < length (fst result)" "name (fst result ! k) = n"
    "remaining (fst result ! k) = max 0 (total_n - prev - fst (clamp_done total_n prev typed))"
    using run_derived_remaining [OF s m, of day_capacities today_in answers entered]
    unfolding result_def total_n_def prev_def typed_def today_def by blast
  have r0: "\<exists>k<length (fst result). name (fst result ! k) = n \<and>
       remaining (fst result ! k) = max 0 (total_n - prev - done_today ?c)"
    using k by auto
  have cd: "clamp_done total_n prev typed =
     (if typed < 0 then (0, False)
      else if bound < typed then (bound, True)
      else (typed, False))"
    unfolding bound_def by (rule clamp_done_cases)
  have b0: "0 \<le> bound" by (simp add: bound_def)
  have r1: "prev_done ?c = prev \<and> 0 \<le> done_today ?c \<and> done_today ?c \<le> bound"
    using cd b0 by auto
  have r2: "typed < 0 \<longrightarrow> done_today ?c = 0 \<and> n \<notin> set (snd (snd (snd result)))"
    using cd w by simp
  have r3: "bound < typed \<longrightarrow> done_today ?c = bound \<and> n \<in> set (snd (snd (snd result)))"
    using cd w b0 by auto
  have r4: "0 \<le> typed \<and> typed \<le> bound \<longrightarrow>
       done_today ?c = typed \<and> n \<notin> set (snd (snd (snd result)))"
    using cd w by auto
  have r5: "total_n = 5 \<and> prev = 2 \<and> typed = 10 \<longrightarrow>
       done_today ?c = 3 \<and> n \<in> set (snd (snd (snd result))) \<and>
       (\<exists>k<length (fst result). name (fst result ! k) = n \<and> remaining (fst result ! k) = 0)"
  proof
    assume a: "total_n = 5 \<and> prev = 2 \<and> typed = 10"
    then have "clamp_done total_n prev typed = (3, True)"
      by (simp add: clamp_done_def Let_def)
    then show "done_today ?c = 3 \<and> n \<in> set (snd (snd (snd result))) \<and>
       (\<exists>k<length (fst result). name (fst result ! k) = n \<and> remaining (fst result ! k) = 0)"
      using w k a by auto
  qed
  show ?thesis
    by (rule exI [where x = ?c]) (intro conjI; fact c r1 [THEN conjunct1]
      r1 [THEN conjunct2, THEN conjunct1] r1 [THEN conjunct2, THEN conjunct2] r0 r2 r3 r4 r5)
qed

text \<open>
  A history with \<^verbatim>\<open>total_assigned = 5\<close> and \<^verbatim>\<open>prev = 2\<close> on day 2, with 10, -4 and 2
  typed at the prompt.
\<close>

theorem completion_input_clamping_witness:
  "''A'' \<noteq> idle_sentinel \<and>
   ''A'' \<in> row_name ` set
     [\<lparr>row_day = 1, row_name = ''A'', row_assigned = 2, row_time = 1\<rparr>,
      \<lparr>row_day = 2, row_name = ''A'', row_assigned = 3, row_time = 3\<rparr>] \<and>
   spec_total_assigned ''A''
     [\<lparr>row_day = 1, row_name = ''A'', row_assigned = 2, row_time = 1\<rparr>,
      \<lparr>row_day = 2, row_name = ''A'', row_assigned = 3, row_time = 3\<rparr>] = 5 \<and>
   prev_assigned
     [\<lparr>row_day = 1, row_name = ''A'', row_assigned = 2, row_time = 1\<rparr>,
      \<lparr>row_day = 2, row_name = ''A'', row_assigned = 3, row_time = 3\<rparr>] ''A'' (clamp_today 2) = 2 \<and>
   map_of (completed_by_task
     [\<lparr>row_day = 1, row_name = ''A'', row_assigned = 2, row_time = 1\<rparr>,
      \<lparr>row_day = 2, row_name = ''A'', row_assigned = 3, row_time = 3\<rparr>] (clamp_today 2) (\<lambda>n. Number 10)
     (aggregate_tasks_from_plan
     [\<lparr>row_day = 1, row_name = ''A'', row_assigned = 2, row_time = 1\<rparr>,
      \<lparr>row_day = 2, row_name = ''A'', row_assigned = 3, row_time = 3\<rparr>])) ''A'' = Some \<lparr>done_today = 3, prev_done = 2\<rparr> \<and>
   ''A'' \<in> set (snd (snd (snd (run
     [\<lparr>row_day = 1, row_name = ''A'', row_assigned = 2, row_time = 1\<rparr>,
      \<lparr>row_day = 2, row_name = ''A'', row_assigned = 3, row_time = 3\<rparr>] [1, 1, 1] 2 (\<lambda>n. Number 10) [])))) \<and>
   (\<exists>k<length (fst (run
     [\<lparr>row_day = 1, row_name = ''A'', row_assigned = 2, row_time = 1\<rparr>,
      \<lparr>row_day = 2, row_name = ''A'', row_assigned = 3, row_time = 3\<rparr>] [1, 1, 1] 2 (\<lambda>n. Number 10) [])).
      name (fst (run
     [\<lparr>row_day = 1, row_name = ''A'', row_assigned = 2, row_time = 1\<rparr>,
      \<lparr>row_day = 2, row_name = ''A'', row_assigned = 3, row_time = 3\<rparr>] [1, 1, 1] 2 (\<lambda>n. Number 10) []) ! k) = ''A'' \<and>
      remaining (fst (run
     [\<lparr>row_day = 1, row_name = ''A'', row_assigned = 2, row_time = 1\<rparr>,
      \<lparr>row_day = 2, row_name = ''A'', row_assigned = 3, row_time = 3\<rparr>] [1, 1, 1] 2 (\<lambda>n. Number 10) []) ! k) = 0) \<and>
   map_of (completed_by_task
     [\<lparr>row_day = 1, row_name = ''A'', row_assigned = 2, row_time = 1\<rparr>,
      \<lparr>row_day = 2, row_name = ''A'', row_assigned = 3, row_time = 3\<rparr>] (clamp_today 2) (\<lambda>n. Number (- 4))
     (aggregate_tasks_from_plan
     [\<lparr>row_day = 1, row_name = ''A'', row_assigned = 2, row_time = 1\<rparr>,
      \<lparr>row_day = 2, row_name = ''A'', row_assigned = 3, row_time = 3\<rparr>])) ''A'' = Some \<lparr>done_today = 0, prev_done = 2\<rparr> \<and>
   ''A'' \<notin> set (snd (snd (snd (run
     [\<lparr>row_day = 1, row_name = ''A'', row_assigned = 2, row_time = 1\<rparr>,
      \<lparr>row_day = 2, row_name = ''A'', row_assigned = 3, row_time = 3\<rparr>] [1, 1, 1] 2 (\<lambda>n. Number (- 4)) [])))) \<and>
   map_of (completed_by_task
     [\<lparr>row_day = 1, row_name = ''A'', row_assigned = 2, row_time = 1\<rparr>,
      \<lparr>row_day = 2, row_name = ''A'', row_assigned = 3, row_time = 3\<rparr>] (clamp_today 2) (\<lambda>n. Number 2)
     (aggregate_tasks_from_plan
     [\<lparr>row_day = 1, row_name = ''A'', row_assigned = 2, row_time = 1\<rparr>,
      \<lparr>row_day = 2, row_name = ''A'', row_assigned = 3, row_time = 3\<rparr>])) ''A'' = Some \<lparr>done_today = 2, prev_done = 2\<rparr> \<and>
   ''A'' \<notin> set (snd (snd (snd (run
     [\<lparr>row_day = 1, row_name = ''A'', row_assigned = 2, row_time = 1\<rparr>,
      \<lparr>row_day = 2, row_name = ''A'', row_assigned = 3, row_time = 3\<rparr>] [1, 1, 1] 2 (\<lambda>n. Number 2) []))))"
  using completion_input_clamping [where n = "''A''" and today_in = 2 and
      answers = "\<lambda>n. Number 10" and day_capacities = "[1, 1, 1]" and entered = "[]" and
      plan_rows = "[\<lparr>row_day = 1, row_name = ''A'', row_assigned = 2, row_time = 1\<rparr>,
      \<lparr>row_day = 2, row_name = ''A'', row_assigned = 3, row_time = 3\<rparr>]"]
    completion_input_clamping [where n = "''A''" and today_in = 2 and
      answers = "\<lambda>n. Number (- 4)" and day_capacities = "[1, 1, 1]" and entered = "[]" and
      plan_rows = "[\<lparr>row_day = 1, row_name = ''A'', row_assigned = 2, row_time = 1\<rparr>,
      \<lparr>row_day = 2, row_name = ''A'', row_assigned = 3, row_time = 3\<rparr>]"]
    completion_input_clamping [where n = "''A''" and today_in = 2 and
      answers = "\<lambda>n. Number 2" and day_capacities = "[1, 1, 1]" and entered = "[]" and
      plan_rows = "[\<lparr>row_day = 1, row_name = ''A'', row_assigned = 2, row_time = 1\<rparr>,
      \<lparr>row_day = 2, row_name = ''A'', row_assigned = 3, row_time = 3\<rparr>]"]
  by (auto simp add: idle_sentinel_def spec_total_assigned_def history_rows_def
      prev_assigned_def today_assigned_def clamp_today_def typed_count_def read_done_def)

text \<open>
  C9, history aggregation. The keys of the result are distinct. A name has an entry
  exactly when it is not the idle label and some row bears it, and the entry holds the
  sum of the assigned counts of the rows of that name, the least of their days, and
  the mean of \<open>time / assigned\<close> over those of them with a positive count, or 1 when
  there is none.
\<close>

theorem history_aggregation:
  "distinct (map fst (aggregate_tasks_from_plan plan_rows)) \<and>
   map_of (aggregate_tasks_from_plan plan_rows) n =
     (if n \<noteq> idle_sentinel \<and> n \<in> row_name ` set plan_rows
      then Some \<lparr>total_assigned = spec_total_assigned n plan_rows,
                 time_per_item_samples = spec_samples n plan_rows,
                 first_day = spec_first_day n plan_rows,
                 info_time_per_item = Some (spec_time_per_item n plan_rows)\<rparr>
      else None)"
  by (simp add: aggregate_tasks_lookup aggregate_tasks_distinct spec_info_def)

text \<open>A history of four rows, one of them idle, read at the name \<open>A\<close>.\<close>

theorem history_aggregation_witness:
  "''A'' \<noteq> idle_sentinel \<and>
   ''A'' \<in> row_name ` set
     [\<lparr>row_day = 1, row_name = ''A'', row_assigned = 2, row_time = 1\<rparr>,
      \<lparr>row_day = 1, row_name = ''B'', row_assigned = 1, row_time = 2\<rparr>,
      \<lparr>row_day = 2, row_name = idle_sentinel, row_assigned = 0, row_time = 0\<rparr>,
      \<lparr>row_day = 3, row_name = ''A'', row_assigned = 3, row_time = 3\<rparr>] \<and>
   map_of (aggregate_tasks_from_plan
     [\<lparr>row_day = 1, row_name = ''A'', row_assigned = 2, row_time = 1\<rparr>,
      \<lparr>row_day = 1, row_name = ''B'', row_assigned = 1, row_time = 2\<rparr>,
      \<lparr>row_day = 2, row_name = idle_sentinel, row_assigned = 0, row_time = 0\<rparr>,
      \<lparr>row_day = 3, row_name = ''A'', row_assigned = 3, row_time = 3\<rparr>]) ''A'' =
   Some \<lparr>total_assigned = 5, time_per_item_samples = [1 / 2, 1], first_day = 1,
          info_time_per_item = Some (3 / 4)\<rparr>"
  using history_aggregation [of
     "[\<lparr>row_day = 1, row_name = ''A'', row_assigned = 2, row_time = 1\<rparr>,
      \<lparr>row_day = 1, row_name = ''B'', row_assigned = 1, row_time = 2\<rparr>,
      \<lparr>row_day = 2, row_name = idle_sentinel, row_assigned = 0, row_time = 0\<rparr>,
      \<lparr>row_day = 3, row_name = ''A'', row_assigned = 3, row_time = 3\<rparr>]" "''A''"]
  by (simp add: idle_sentinel_def spec_total_assigned_def spec_samples_def spec_first_day_def
      spec_time_per_item_def history_rows_def)

text \<open>
  C8, replan derivation and conservation. For every task name of the history, \<^verbatim>\<open>run\<close>
  records a completed count \<open>done_today\<close> for it and derives a task of that name whose
  \<^verbatim>\<open>remaining\<close> is \<^verbatim>\<open>max(0, total_assigned - prev - done_today)\<close>, whose priority is
  the earliest day of the name in the history, whose difficulty is 1 and whose
  \<^verbatim>\<open>time_per_item\<close> is the aggregated estimate; and the plan that the allocator
  returns for the derived set assigns to the name at most that \<^verbatim>\<open>remaining\<close> in total.
\<close>

theorem replan_derivation:
  assumes s: "n \<noteq> idle_sentinel" and m: "n \<in> row_name ` set plan_rows"
  shows "\<exists>c k.
    map_of (completed_by_task plan_rows (clamp_today today_in) answers
      (aggregate_tasks_from_plan plan_rows)) n = Some c \<and>
    k < length (fst (run plan_rows day_capacities today_in answers entered)) \<and>
    fst (run plan_rows day_capacities today_in answers entered) ! k =
      \<lparr>name = n,
       remaining = max 0 (spec_total_assigned n plan_rows -
                         prev_assigned plan_rows n (clamp_today today_in) - done_today c),
       time_per_item = spec_time_per_item n plan_rows,
       difficulty = 1,
       priority = spec_first_day n plan_rows\<rparr> \<and>
    assigned_of n (concat (fst (snd (run plan_rows day_capacities today_in answers entered)))) \<le>
      max 0 (spec_total_assigned n plan_rows -
             prev_assigned plan_rows n (clamp_today today_in) - done_today c)"
proof -
  let ?info = "aggregate_tasks_from_plan plan_rows"
  let ?today = "clamp_today today_in"
  let ?completed = "completed_by_task plan_rows ?today answers ?info"
  let ?rts = "remaining_tasks plan_rows ?today ?completed ?info"
  let ?caps = "next_day_caps day_capacities ?today entered"
  let ?i = "(spec_info n plan_rows)\<lparr>info_time_per_item := Some (spec_time_per_item n plan_rows)\<rparr>"
  have run1: "fst (run plan_rows day_capacities today_in answers entered) = ?rts"
    by (simp add: run_def Let_def)
  have run2: "fst (snd (run plan_rows day_capacities today_in answers entered)) =
      fst (allocate_by_priority ?caps ?rts)"
    by (simp add: run_def Let_def tasks_for_alloc_copy)
  have look: "map_of ?info n = Some ?i"
    using s m by (simp add: aggregate_tasks_lookup)
  then have "(n, ?i) \<in> set ?info" by (rule map_of_SomeD)
  then obtain k where k: "k < length ?info" "?info ! k = (n, ?i)"
    by (auto simp: in_set_conv_nth)
  obtain c where c: "map_of ?completed n = Some c"
    using look unfolding completed_by_task_def Let_def by (simp add: map_of_map_keyed)
  have len: "length ?rts = length ?info" by (simp add: remaining_tasks_def)
  have at: "?rts ! k =
      \<lparr>name = n,
       remaining = max 0 (spec_total_assigned n plan_rows - prev_assigned plan_rows n ?today
                          - done_today c),
       time_per_item = spec_time_per_item n plan_rows,
       difficulty = 1,
       priority = spec_first_day n plan_rows\<rparr>"
    using k c by (simp add: remaining_tasks_def Let_def spec_info_def derive_remaining_max)
  have dist: "distinct (map name ?rts)"
    by (simp add: remaining_tasks_names aggregate_tasks_distinct)
  have "assigned_of (name (?rts ! k)) (concat (fst (allocate_by_priority ?caps ?rts))) \<le>
      remaining (?rts ! k)"
    using allocate_at_most_remaining [OF dist, of k ?caps] k len at by simp
  then have le: "assigned_of n (concat (fst (allocate_by_priority ?caps ?rts))) \<le>
      max 0 (spec_total_assigned n plan_rows - prev_assigned plan_rows n ?today - done_today c)"
    using at by simp
  show ?thesis
    unfolding run1 run2 using c k(1) len at le by auto
qed

text \<open>The same history, replanned after day 1 with one item reported done per task.\<close>

theorem replan_derivation_witness:
  "''A'' \<noteq> idle_sentinel \<and>
   ''A'' \<in> row_name ` set
     [\<lparr>row_day = 1, row_name = ''A'', row_assigned = 2, row_time = 1\<rparr>,
      \<lparr>row_day = 1, row_name = ''B'', row_assigned = 1, row_time = 2\<rparr>,
      \<lparr>row_day = 2, row_name = idle_sentinel, row_assigned = 0, row_time = 0\<rparr>,
      \<lparr>row_day = 3, row_name = ''A'', row_assigned = 3, row_time = 3\<rparr>] \<and>
   (\<exists>k. fst (run
     [\<lparr>row_day = 1, row_name = ''A'', row_assigned = 2, row_time = 1\<rparr>,
      \<lparr>row_day = 1, row_name = ''B'', row_assigned = 1, row_time = 2\<rparr>,
      \<lparr>row_day = 2, row_name = idle_sentinel, row_assigned = 0, row_time = 0\<rparr>,
      \<lparr>row_day = 3, row_name = ''A'', row_assigned = 3, row_time = 3\<rparr>] [1, 2, 3] 1 (\<lambda>n. Number 1) []) ! k =
      \<lparr>name = ''A'', remaining = 4, time_per_item = 3 / 4, difficulty = 1, priority = 1\<rparr>) \<and>
   assigned_of ''A'' (concat (fst (snd (run
     [\<lparr>row_day = 1, row_name = ''A'', row_assigned = 2, row_time = 1\<rparr>,
      \<lparr>row_day = 1, row_name = ''B'', row_assigned = 1, row_time = 2\<rparr>,
      \<lparr>row_day = 2, row_name = idle_sentinel, row_assigned = 0, row_time = 0\<rparr>,
      \<lparr>row_day = 3, row_name = ''A'', row_assigned = 3, row_time = 3\<rparr>] [1, 2, 3] 1 (\<lambda>n. Number 1) [])))) \<le> 4"
  using replan_derivation [of "''A''"
     "[\<lparr>row_day = 1, row_name = ''A'', row_assigned = 2, row_time = 1\<rparr>,
      \<lparr>row_day = 1, row_name = ''B'', row_assigned = 1, row_time = 2\<rparr>,
      \<lparr>row_day = 2, row_name = idle_sentinel, row_assigned = 0, row_time = 0\<rparr>,
      \<lparr>row_day = 3, row_name = ''A'', row_assigned = 3, row_time = 3\<rparr>]" 1 "\<lambda>n. Number 1" "[1, 2, 3]" "[]"]
  by (auto simp add: idle_sentinel_def spec_total_assigned_def spec_first_day_def spec_samples_def
      spec_time_per_item_def history_rows_def prev_assigned_def today_assigned_def
      clamp_today_def completed_by_task_def aggregate_tasks_from_plan_def aggregate_row_def
      new_info_def add_row_def set_time_per_item_def suggested_def read_done_def
      clamp_done_def Let_def)

end
